theory Spec2Isabelle
  imports Main "HOL-Library.Sublist"
begin

section \<open>JavaScript strings\<close>

text \<open>
  Header values and request paths are sequences of code units; a header value that Node
  hands to the program holds one code unit per byte, so \<open>char\<close> covers it.
  \<open>String.prototype.toLowerCase\<close> maps \<open>A..Z\<close> to \<open>a..z\<close> and, in the
  range above ASCII that a byte can hold, \<open>0xC0..0xDE\<close> (without \<open>0xD7\<close>) to the
  code unit 32 higher; every other byte is kept.
\<close>

definition toLowerCase_char :: "char \<Rightarrow> char" where
  "toLowerCase_char c =
     (let n = (of_char c :: nat) in
      if 65 \<le> n \<and> n \<le> 90 then char_of (n + 32)
      else if 192 \<le> n \<and> n \<le> 222 \<and> n \<noteq> 215 then char_of (n + 32)
      else c)"

definition toLowerCase :: "string \<Rightarrow> string" where
  "toLowerCase s = map toLowerCase_char s"

definition startsWith :: "string \<Rightarrow> string \<Rightarrow> bool" where
  "startsWith s p = (take (length p) s = p)"

fun includes_str :: "string \<Rightarrow> string \<Rightarrow> bool" where
  "includes_str [] p = (p = [])"
| "includes_str (c # cs) p = (startsWith (c # cs) p \<or> includes_str cs p)"

text \<open>
  What "the signature occurs in the value as a substring, letter case ignored" means for a
  signature of lower-case ASCII letters: some window of the value agrees with the
  signature position by position, each position holding the letter itself or its
  upper-case form (the code unit 32 lower).
\<close>

definition same_letter :: "char \<Rightarrow> char \<Rightarrow> bool" where
  "same_letter c l = (c = l \<or> (of_char c :: nat) + 32 = of_char l)"

definition lower_letter :: "char \<Rightarrow> bool" where
  "lower_letter l = (97 \<le> (of_char l :: nat) \<and> (of_char l :: nat) \<le> 122)"

definition contains_ignoring_case :: "string \<Rightarrow> string \<Rightarrow> bool" where
  "contains_ignoring_case s sig =
     (\<exists>pre mid post. s = pre @ mid @ post \<and> list_all2 same_letter mid sig)"

section \<open>Requests, responses and what a middleware does with control\<close>

text \<open>
  The request methods that reach routing. An \<open>OPTIONS\<close> request is answered inside
  \<open>cors()\<close> (its preflight handling with the default options) and is left out.
\<close>

datatype http_method = GET | HEAD | POST | PUT | DELETE | PATCH

text \<open>
  \<open>req.method\<close>, \<open>req.path\<close> and \<open>req.headers['user-agent']\<close>
  (\<open>None\<close> when the header is absent, which JavaScript reads as \<open>undefined\<close>).
\<close>

record request =
  req_method :: http_method
  req_path :: string
  user_agent :: "string option"

datatype jvalue = JStr string | JBool bool | JArr "string list"

datatype response =
    Json nat "(string \<times> jvalue) list"  \<comment> \<open>\<open>res.status(n).json({...})\<close>\<close>
  | SendFile string                      \<comment> \<open>\<open>res.sendFile(path)\<close>\<close>
  | Send nat string string               \<comment> \<open>\<open>res.status(n).send(text)\<close>: status, Content-Type, body\<close>
  | Library string                       \<comment> \<open>a response written by a library middleware\<close>

text \<open>
  A middleware ends in one of: \<open>next()\<close>, \<open>next(error)\<close>, a response, or none of
  them (the request is then left without an answer).
\<close>

datatype 'e action = Next | NextErr 'e | Respond response | Hang

text \<open>\<open>process.env\<close> after \<open>dotenv.config()\<close>.\<close>

record env =
  NODE_ENV :: "string option"
  PORT :: "string option"

section \<open>The decision service (\<open>./lib/arcjet.js\<close>, outside the sources)\<close>

text \<open>
  The decision object is read through \<open>isDenied()\<close>, \<open>reason\<close>, \<open>results\<close> and, on a
  reason, \<open>isRateLimit()\<close>, \<open>isBot()\<close> and \<open>isSpoofed()\<close>. A reason is of exactly one
  kind; only a bot reason carries the spoofed flag.
\<close>

datatype reason = RateLimitReason | BotReason bool | OtherReason string

fun isRateLimit :: "reason \<Rightarrow> bool" where
  "isRateLimit RateLimitReason = True"
| "isRateLimit _ = False"

fun isBot :: "reason \<Rightarrow> bool" where
  "isBot (BotReason _) = True"
| "isBot _ = False"

fun isSpoofed :: "reason \<Rightarrow> bool" where
  "isSpoofed (BotReason s) = s"
| "isSpoofed _ = False"

datatype rule_result = RuleResult (result_reason: reason)

datatype decision =
  Decision (isDenied: bool) (decision_reason: reason) (results: "rule_result list")

section \<open>The rate-limit stage (server.js, lines 42 to 75)\<close>

text \<open>
  The stage is modelled by the effects it performs, in order. \<open>aj\<close> is the answer of
  \<open>aj.protect(req, {requested: n})\<close>: \<open>Inl e\<close> when the awaited call throws \<open>e\<close>.
\<close>

datatype 'e effect =
    AjProtect nat
  | ConsoleLog string
  | ResStatus nat
  | ResJson "(string \<times> jvalue) list"
  | CallNext
  | CallNextErr 'e

text \<open>
  Lines 44 and 45: \<open>ua\<close> is \<open>req.headers['user-agent'] || ''\<close>, the header or, when it is
  absent or empty, the empty string; the bypass is taken when \<open>NODE_ENV\<close> is not
  \<open>production\<close> and \<open>ua.toLowerCase().includes('postman')\<close>.
\<close>

definition dev_bypass :: "env \<Rightarrow> request \<Rightarrow> bool" where
  "dev_bypass E req =
     (let ua = (case user_agent req of None \<Rightarrow> '''' | Some h \<Rightarrow> if h = '''' then '''' else h)
      in NODE_ENV E \<noteq> Some ''production'' \<and> includes_str (toLowerCase ua) ''postman'')"

definition on_decision :: "decision \<Rightarrow> 'e effect list" where
  "on_decision d =
     (if isDenied d then
        (if isRateLimit (decision_reason d) then
           [ResStatus 429, ResJson [(''error'', JStr ''Too Many Requests'')]]
         else if isBot (decision_reason d) then
           [ResStatus 403, ResJson [(''error'', JStr ''Bot access denied'')]]
         else
           [ResStatus 403, ResJson [(''error'', JStr ''Forbidden'')]])
      else if list_ex (\<lambda>result. isBot (result_reason result) \<and> isSpoofed (result_reason result))
                (results d) then
        [ResStatus 403, ResJson [(''error'', JStr ''Spoofed bot detected'')]]
      else [CallNext])"

definition arcjet_middleware ::
  "env \<Rightarrow> (request \<Rightarrow> nat \<Rightarrow> 'e + decision) \<Rightarrow> request \<Rightarrow> 'e effect list" where
  "arcjet_middleware E aj req =
     (if dev_bypass E req then [CallNext]
      else AjProtect 1 #
        (case aj req 1 of
           Inr d \<Rightarrow> on_decision d
         | Inl e \<Rightarrow> [ConsoleLog ''Arcjet error'', CallNextErr e]))"

text \<open>
  What the effects amount to for the pipeline: the first call of \<open>next\<close> or the first body
  written, with the status set before it (200 when none was set).
\<close>

fun action_of :: "nat \<Rightarrow> 'e effect list \<Rightarrow> 'e action" where
  "action_of st [] = Hang"
| "action_of st (ResStatus n # es) = action_of n es"
| "action_of st (ResJson b # es) = Respond (Json st b)"
| "action_of st (CallNext # es) = Next"
| "action_of st (CallNextErr e # es) = NextErr e"
| "action_of st (_ # es) = action_of st es"


section \<open>Express path matching (default options: letter case ignored, one optional trailing slash)\<close>

fun split_slash :: "string \<Rightarrow> string list" where
  "split_slash [] = [[]]"
| "split_slash (c # cs) =
     (if c = CHR ''/'' then [] # split_slash cs
      else (case split_slash cs of [] \<Rightarrow> [[c]] | s # ss \<Rightarrow> (c # s) # ss))"

definition drop_trailing_slash :: "string \<Rightarrow> string" where
  "drop_trailing_slash s = (if s \<noteq> [] \<and> last s = CHR ''/'' then butlast s else s)"

text \<open>A pattern segment \<open>:name\<close> takes any non-empty segment; any other one is literal.\<close>

definition segment_matches :: "string \<Rightarrow> string \<Rightarrow> bool" where
  "segment_matches pat seg =
     (case pat of
        [] \<Rightarrow> seg = []
      | c # _ \<Rightarrow> if c = CHR '':'' then seg \<noteq> [] else toLowerCase pat = toLowerCase seg)"

text \<open>A route path (\<open>app.get(path, ...)\<close>, \<open>router.get(path, ...)\<close>) takes the whole path.\<close>

definition route_matches :: "string \<Rightarrow> string \<Rightarrow> bool" where
  "route_matches pat p =
     list_all2 segment_matches (split_slash (drop_trailing_slash pat))
       (split_slash (drop_trailing_slash p))"

text \<open>
  A mount path (\<open>app.use(path, ...)\<close>) takes a prefix of the path that ends at a
  segment boundary; the handler sees the rest (\<open>/\<close> when nothing is left).
\<close>

definition mount_strip :: "string \<Rightarrow> string \<Rightarrow> string option" where
  "mount_strip mount p =
     (if startsWith (toLowerCase p) (toLowerCase mount) then
        (case drop (length mount) p of
           [] \<Rightarrow> Some ''/''
         | c # r \<Rightarrow>
             if c \<noteq> CHR ''/'' then None
             else (case r of
                     [] \<Rightarrow> Some ''/''
                   | d # _ \<Rightarrow> if d = CHR ''/'' then Some r else Some (c # r)))
      else None)"

text \<open>A \<open>get\<close> route also answers \<open>HEAD\<close>.\<close>

definition method_matches :: "http_method \<Rightarrow> http_method \<Rightarrow> bool" where
  "method_matches m route_method = (m = route_method \<or> (m = HEAD \<and> route_method = GET))"

section \<open>The routers\<close>

text \<open>The handlers are the exports of \<open>../controllers/productContorller.js\<close>.\<close>

datatype handler =
  getAllProducts | createProduct | getProducts | getProduct | updateProduct | deleteProduct

type_synonym route = "http_method \<times> string \<times> handler"

text \<open>src/backend/routes/productRoutes.js, the module that server.js imports.\<close>

definition productRoutes :: "route list" where
  "productRoutes = [(GET, ''/'', getAllProducts), (POST, ''/'', createProduct)]"

text \<open>src/unnamed/part\_000, a router module that server.js does not import.\<close>

definition part_000 :: "route list" where
  "part_000 =
     [(GET, ''/'', getProducts),
      (GET, ''/:id'', getProduct),
      (POST, ''/'', createProduct),
      (PUT, ''/:id'', updateProduct),
      (DELETE, ''/:id'', deleteProduct)]"

fun router_lookup :: "route list \<Rightarrow> http_method \<Rightarrow> string \<Rightarrow> handler option" where
  "router_lookup [] m p = None"
| "router_lookup ((rm, pat, h) # rs) m p =
     (if method_matches m rm \<and> route_matches pat p then Some h else router_lookup rs m p)"

text \<open>\<open>app.use("/api/products", router)\<close>: the handler a router gives a request of the app.\<close>

definition api_handler :: "route list \<Rightarrow> http_method \<Rightarrow> string \<Rightarrow> handler option" where
  "api_handler r m p =
     (case mount_strip ''/api/products'' p of
        None \<Rightarrow> None
      | Some sub \<Rightarrow> router_lookup r m sub)"

section \<open>What lies outside the sources\<close>

text \<open>
  Node's \<open>path\<close> and \<open>fs\<close> modules, the library middleware, the decision service and the
  controller are parameters. \<open>readdirSync\<close> may throw (\<open>Inl\<close>).
\<close>

record 'e world =
  dirname :: string
  path_join :: "string \<Rightarrow> string \<Rightarrow> string"
  path_dirname :: "string \<Rightarrow> string"
  existsSync :: "string \<Rightarrow> bool"
  readdirSync :: "string \<Rightarrow> 'e + string list"
  json_mw :: "request \<Rightarrow> 'e action"
  cors_mw :: "request \<Rightarrow> 'e action"
  helmet_mw :: "bool \<Rightarrow> request \<Rightarrow> 'e action"
  morgan_mw :: "string \<Rightarrow> request \<Rightarrow> 'e action"
  static_mw :: "string \<Rightarrow> request \<Rightarrow> 'e action"
  protect :: "request \<Rightarrow> nat \<Rightarrow> 'e + decision"
  controller :: "handler \<Rightarrow> request \<Rightarrow> 'e action"

section \<open>The stages of the application (server.js)\<close>

datatype stage =
    express_json
  | cors
  | helmet bool            \<comment> \<open>the \<open>contentSecurityPolicy\<close> option\<close>
  | morgan string
  | arcjet
  | test_path
  | product_router "route list"
  | api_test
  | express_static string
  | catch_all

datatype layer =
    AppUse string stage    \<comment> \<open>\<open>app.use(path, fn)\<close>; \<open>app.use(fn)\<close> mounts at \<open>/\<close>\<close>
  | AppGet string stage    \<comment> \<open>\<open>app.get(path, fn)\<close>\<close>

fun stage_of :: "layer \<Rightarrow> stage" where
  "stage_of (AppUse _ s) = s"
| "stage_of (AppGet _ s) = s"

text \<open>The request as the layer's handler sees it, when the layer takes the request.\<close>

fun layer_match :: "layer \<Rightarrow> request \<Rightarrow> request option" where
  "layer_match (AppUse mount s) req =
     (if mount = ''/'' then Some req
      else (case mount_strip mount (req_path req) of
              None \<Rightarrow> None
            | Some sub \<Rightarrow> Some (req\<lparr>req_path := sub\<rparr>)))"
| "layer_match (AppGet pat s) req =
     (if method_matches (req_method req) GET \<and> route_matches pat (req_path req)
      then Some req else None)"

definition distPath :: "'e world \<Rightarrow> string" where
  "distPath W = path_join W (dirname W) ''../frontend/dist''"

definition indexPath :: "'e world \<Rightarrow> string" where
  "indexPath W = path_join W (dirname W) ''../frontend/dist/index.html''"

text \<open>Lines 82 to 92. An exception thrown in a handler reaches \<open>next(error)\<close>.\<close>

definition test_path_handler :: "'e world \<Rightarrow> 'e action" where
  "test_path_handler W =
     (let exists = existsSync W (indexPath W) in
      case (if exists then readdirSync W (path_dirname W (indexPath W)) else Inr []) of
        Inl e \<Rightarrow> NextErr e
      | Inr files \<Rightarrow>
          Respond (Json 200
            [(''__dirname'', JStr (dirname W)),
             (''distPath'', JStr (distPath W)),
             (''indexPath'', JStr (indexPath W)),
             (''exists'', JBool exists),
             (''files'', JArr files)]))"

text \<open>Lines 100 to 102.\<close>

definition api_test_handler :: "'e action" where
  "api_test_handler = Respond (Json 200 [(''message'', JStr ''API is working'')])"

text \<open>
  Lines 158 to 171. \<open>res.send\<close> with a string body and no Content-Type set before it
  sends the body as \<open>text/html; charset=utf-8\<close>.
\<close>

definition catch_all_handler :: "'e world \<Rightarrow> request \<Rightarrow> 'e action" where
  "catch_all_handler W req =
     (if startsWith (req_path req) ''/api/'' \<or> req_path req = ''/test-path'' then Next
      else if existsSync W (indexPath W) then Respond (SendFile (indexPath W))
      else Respond (Send 404 ''text/html; charset=utf-8'' ''Frontend build not found''))"

text \<open>
  A router runs the first route that takes the request; a handler that calls \<open>next()\<close>
  hands over to the routes after it, and a router with no route left hands back to the
  application.
\<close>

fun router_handle :: "'e world \<Rightarrow> route list \<Rightarrow> request \<Rightarrow> 'e action" where
  "router_handle W [] req = Next"
| "router_handle W ((rm, pat, h) # rs) req =
     (if method_matches (req_method req) rm \<and> route_matches pat (req_path req) then
        (case controller W h req of
           Next \<Rightarrow> router_handle W rs req
         | NextErr e \<Rightarrow> NextErr e
         | Respond r \<Rightarrow> Respond r
         | Hang \<Rightarrow> Hang)
      else router_handle W rs req)"

fun stage_action :: "'e world \<Rightarrow> env \<Rightarrow> stage \<Rightarrow> request \<Rightarrow> 'e action" where
  "stage_action W E express_json req = json_mw W req"
| "stage_action W E cors req = cors_mw W req"
| "stage_action W E (helmet csp) req = helmet_mw W csp req"
| "stage_action W E (morgan fmt) req = morgan_mw W fmt req"
| "stage_action W E arcjet req = action_of 200 (arcjet_middleware E (protect W) req)"
| "stage_action W E test_path req = test_path_handler W"
| "stage_action W E (product_router r) req = router_handle W r req"
| "stage_action W E api_test req = api_test_handler"
| "stage_action W E (express_static root) req = static_mw W root req"
| "stage_action W E catch_all req = catch_all_handler W req"

text \<open>
  The application walks its layers in the order of registration. No layer of this
  application is an error handler, so \<open>next(error)\<close> skips every remaining layer and ends
  in Express' own error responder; a request that no layer answers ends in Express' own
  "not found" answer. The result is the stages run, in order, and how the request ended.
\<close>

datatype 'e outcome = Responded response | DefaultNotFound | DefaultError 'e | NoAnswer

fun run_layers :: "'e world \<Rightarrow> env \<Rightarrow> layer list \<Rightarrow> request \<Rightarrow> stage list \<times> 'e outcome" where
  "run_layers W E [] req = ([], DefaultNotFound)"
| "run_layers W E (l # ls) req =
     (case layer_match l req of
        None \<Rightarrow> run_layers W E ls req
      | Some req' \<Rightarrow>
          (case stage_action W E (stage_of l) req' of
             Next \<Rightarrow> apfst (Cons (stage_of l)) (run_layers W E ls req)
           | NextErr e \<Rightarrow> ([stage_of l], DefaultError e)
           | Respond r \<Rightarrow> ([stage_of l], Responded r)
           | Hang \<Rightarrow> ([stage_of l], NoAnswer)))"

section \<open>Start-up (server.js, top to bottom)\<close>

datatype port = PortString string | PortNumber nat

text \<open>\<open>process.env.PORT || 3005\<close>: an unset or empty variable gives 3005.\<close>

definition PORT_value :: "env \<Rightarrow> port" where
  "PORT_value E =
     (case PORT E of
        None \<Rightarrow> PortNumber 3005
      | Some s \<Rightarrow> if s = '''' then PortNumber 3005 else PortString s)"

text \<open>\<open>"..." + PORT\<close>: the variable's text, or the decimal digits of the number.\<close>

function decimal :: "nat \<Rightarrow> string" where
  "decimal n =
     (if n < 10 then [char_of (48 + n)]
      else decimal (n div 10) @ [char_of (48 + n mod 10)])"
  by pat_completeness auto
termination
  by (relation "measure (\<lambda>n. n)") auto

declare decimal.simps [simp del]

fun port_text :: "port \<Rightarrow> string" where
  "port_text (PortString s) = s"
| "port_text (PortNumber n) = decimal n"

text \<open>How the awaited \<open>CREATE TABLE IF NOT EXISTS\<close> statement ends, if it ends.\<close>

datatype sql_outcome = SqlOk | SqlError | SqlNever

datatype event =
    Log string
  | LogError string
  | Register layer
  | SqlCreateTable         \<comment> \<open>the statement is issued\<close>
  | SqlSettled             \<comment> \<open>the awaited statement has finished, well or not\<close>
  | Listen port
  | Uncaught               \<comment> \<open>an exception leaves the module\<close>

text \<open>
  The callback of \<open>initDB().then\<close>, lines 154 to 178. The callback given to
  \<open>app.listen\<close> logs once the port is open.
\<close>

definition then_callback :: "env \<Rightarrow> event list" where
  "then_callback E =
     (if NODE_ENV E = Some ''production'' then
        [Log ''Setting up catch-all route (production only)...'',
         Register (AppUse ''/'' catch_all),
         Log ''Catch-all route set up successfully'']
      else []) @
     [Listen (PORT_value E),
      Log (''Server is running on port '' @ port_text (PORT_value E))]"

text \<open>
  \<open>initDB\<close>, lines 112 to 128. The \<open>catch\<close> block logs and returns, so the promise
  resolves after a failure too; it stays pending while the statement does.
\<close>

definition initDB :: "sql_outcome \<Rightarrow> event list" where
  "initDB out =
     SqlCreateTable #
     (case out of
        SqlOk \<Rightarrow> [SqlSettled, Log ''Database initialized successfully'']
      | SqlError \<Rightarrow> [SqlSettled, Log ''Error initDB'']
      | SqlNever \<Rightarrow> [])"

text \<open>\<open>initDB().then(callback)\<close>: the callback runs once the promise has resolved.\<close>

definition initDB_then :: "env \<Rightarrow> sql_outcome \<Rightarrow> event list" where
  "initDB_then E out =
     initDB out @
     (case out of
        SqlOk \<Rightarrow> then_callback E
      | SqlError \<Rightarrow> then_callback E
      | SqlNever \<Rightarrow> [])"

text \<open>The five \<open>app.use\<close> calls of lines 32 to 75 and the four registrations of lines 82 to 107.\<close>

definition admission_layers :: "layer list" where
  "admission_layers =
     [AppUse ''/'' express_json,
      AppUse ''/'' cors,
      AppUse ''/'' (helmet False),
      AppUse ''/'' (morgan ''dev''),
      AppUse ''/'' arcjet]"

definition dispatcher_layers :: "'e world \<Rightarrow> route list \<Rightarrow> layer list" where
  "dispatcher_layers W r =
     [AppGet ''/test-path'' test_path,
      AppUse ''/api/products'' (product_router r),
      AppGet ''/api/test'' api_test,
      AppUse ''/'' (express_static (distPath W))]"

text \<open>
  The module, top to bottom. \<open>imported\<close> is the default export of
  \<open>./routes/productRoutes.js\<close>, \<open>None\<close> when the import fails; \<open>app.use\<close> then throws
  on the undefined handler and the module ends there.
\<close>

definition bootstrap :: "'e world \<Rightarrow> env \<Rightarrow> route list option \<Rightarrow> sql_outcome \<Rightarrow> event list" where
  "bootstrap W E imported out =
     [case imported of
        Some _ \<Rightarrow> Log ''Product routes imported successfully''
      | None \<Rightarrow> LogError ''Error importing product routes:''] @
     map Register admission_layers @
     [Log ''Current __dirname:'',
      Log ''Looking for dist at:'',
      Register (AppGet ''/test-path'' test_path),
      Log ''About to register product routes...''] @
     (case imported of
        None \<Rightarrow> [Uncaught]
      | Some r \<Rightarrow>
          [Register (AppUse ''/api/products'' (product_router r)),
           Log ''Product routes registered successfully'',
           Register (AppGet ''/api/test'' api_test),
           Log ''Setting up static file serving...'',
           Register (AppUse ''/'' (express_static (distPath W))),
           Log ''Static file serving set up successfully''] @
          initDB_then E out)"

text \<open>The application object: its layers and the port it listens on, if any.\<close>

record app_state =
  stack :: "layer list"
  listening :: "port option"

definition initial_app :: app_state where
  "initial_app = \<lparr>stack = [], listening = None\<rparr>"

fun apply_event :: "app_state \<Rightarrow> event \<Rightarrow> app_state" where
  "apply_event s (Register l) = s\<lparr>stack := stack s @ [l]\<rparr>"
| "apply_event s (Listen p) = s\<lparr>listening := Some p\<rparr>"
| "apply_event s _ = s"

definition replay :: "event list \<Rightarrow> app_state" where
  "replay evs = foldl apply_event initial_app evs"

text \<open>
  The server as it answers requests: the listener is opened by the last event, so every
  request meets the layers of the finished start-up.
\<close>

definition server_stack :: "'e world \<Rightarrow> env \<Rightarrow> layer list" where
  "server_stack W E = stack (replay (bootstrap W E (Some productRoutes) SqlOk))"

definition serve :: "'e world \<Rightarrow> env \<Rightarrow> request \<Rightarrow> stage list \<times> 'e outcome" where
  "serve W E req = run_layers W E (server_stack W E) req"

section \<open>A sample deployment\<close>

text \<open>
  Every library stage passes control on, the decision service allows, the controller
  answers, and the front end has not been built.
\<close>

definition sample_world :: "string world" where
  "sample_world =
     \<lparr>dirname = ''/app/backend'',
      path_join = (\<lambda>a b.
         if a = ''/app/backend'' \<and> b = ''../frontend/dist'' then ''/app/frontend/dist''
         else if a = ''/app/backend'' \<and> b = ''../frontend/dist/index.html''
           then ''/app/frontend/dist/index.html''
         else a @ ''/'' @ b),
      path_dirname = (\<lambda>p. ''/app/frontend/dist''),
      existsSync = (\<lambda>p. False),
      readdirSync = (\<lambda>p. Inl ''ENOENT''),
      json_mw = (\<lambda>req. Next),
      cors_mw = (\<lambda>req. Next),
      helmet_mw = (\<lambda>csp req. Next),
      morgan_mw = (\<lambda>fmt req. Next),
      static_mw = (\<lambda>root req. Next),
      protect = (\<lambda>req n. Inr (Decision False (OtherReason ''ALLOW'') [])),
      controller = (\<lambda>h req. Respond (Library ''controller''))\<rparr>"

text \<open>The same deployment with the front end built.\<close>

definition built_world :: "string world" where
  "built_world =
     sample_world\<lparr>existsSync := (\<lambda>p. True), readdirSync := (\<lambda>p. Inr [''index.html''])\<rparr>"

text \<open>The same deployment with the decision service out of reach.\<close>

definition unreachable_service_world :: "string world" where
  "unreachable_service_world = sample_world\<lparr>protect := (\<lambda>req n. Inl ''ECONNREFUSED'')\<rparr>"

text \<open>The same deployment with a file \<open>api/products/1/reviews\<close> in the static directory.\<close>

definition static_file_world :: "string world" where
  "static_file_world =
     sample_world\<lparr>static_mw := (\<lambda>root req.
        if req_path req = ''/api/products/1/reviews''
        then Respond (SendFile (root @ req_path req)) else Next)\<rparr>"


definition production :: env where
  "production = \<lparr>NODE_ENV = Some ''production'', PORT = None\<rparr>"

definition development :: env where
  "development = \<lparr>NODE_ENV = Some ''development'', PORT = Some ''8080''\<rparr>"

definition request_of :: "http_method \<Rightarrow> string \<Rightarrow> string option \<Rightarrow> request" where
  "request_of m p ua = \<lparr>req_method = m, req_path = p, user_agent = ua\<rparr>"

section \<open>Substring search and letter case\<close>

lemma includes_str_iff: "includes_str s p \<longleftrightarrow> (\<exists>pre post. s = pre @ p @ post)"
proof (induction s)
  case Nil
  show ?case by auto
next
  case (Cons c cs)
  show ?case
  proof
    assume "includes_str (c # cs) p"
    then consider "startsWith (c # cs) p" | "includes_str cs p" by auto
    then show "\<exists>pre post. c # cs = pre @ p @ post"
    proof cases
      case 1
      then have "c # cs = [] @ p @ drop (length p) (c # cs)"
        unfolding startsWith_def by (metis append_Nil append_take_drop_id)
      then show ?thesis by blast
    next
      case 2
      then obtain pre post where "cs = pre @ p @ post" using Cons.IH by blast
      then have "c # cs = (c # pre) @ p @ post" by simp
      then show ?thesis by blast
    qed
  next
    assume "\<exists>pre post. c # cs = pre @ p @ post"
    then obtain pre post where eq: "c # cs = pre @ p @ post" by blast
    show "includes_str (c # cs) p"
    proof (cases pre)
      case Nil
      with eq have "startsWith (c # cs) p" by (simp add: startsWith_def)
      then show ?thesis by simp
    next
      case (Cons a pre')
      with eq have "cs = pre' @ p @ post" by simp
      then have "includes_str cs p" using Cons.IH by blast
      then show ?thesis by simp
    qed
  qed
qed

lemma char_of_shift:
  assumes "n + 32 < 256"
  shows "(char_of (n + 32 :: nat) = l) \<longleftrightarrow> (n + 32 = (of_char l :: nat))"
proof
  assume "char_of (n + 32) = l"
  then have "(of_char l :: nat) = of_char (char_of (n + 32) :: char)" by simp
  also have "\<dots> = (n + 32) mod 256" by (simp only: of_char_of)
  also have "\<dots> = n + 32" using assms by simp
  finally show "n + 32 = of_char l" by simp
next
  assume "n + 32 = (of_char l :: nat)"
  then show "char_of (n + 32) = l" by simp
qed

text \<open>
  On a lower-case ASCII letter \<open>l\<close>, \<open>toLowerCase\<close> gives \<open>l\<close> exactly for \<open>l\<close> and
  its upper-case form.
\<close>

lemma toLowerCase_char_letter:
  assumes "lower_letter l"
  shows "toLowerCase_char c = l \<longleftrightarrow> same_letter c l"
proof -
  let ?n = "of_char c :: nat"
  have l: "97 \<le> (of_char l :: nat)" "(of_char l :: nat) \<le> 122"
    using assms by (simp_all add: lower_letter_def)
  consider (upper) "65 \<le> ?n \<and> ?n \<le> 90"
    | (high) "192 \<le> ?n \<and> ?n \<le> 222 \<and> ?n \<noteq> 215"
    | (keep) "\<not> (65 \<le> ?n \<and> ?n \<le> 90)" "\<not> (192 \<le> ?n \<and> ?n \<le> 222 \<and> ?n \<noteq> 215)"
    by blast
  then show ?thesis
  proof cases
    case upper
    then have "toLowerCase_char c = char_of (?n + 32)"
      by (simp add: toLowerCase_char_def Let_def)
    moreover have "(char_of (?n + 32) = l) = (?n + 32 = of_char l)"
      using upper by (intro char_of_shift) simp
    moreover have "c \<noteq> l" using upper l by auto
    ultimately show ?thesis by (simp add: same_letter_def)
  next
    case high
    then have "toLowerCase_char c = char_of (?n + 32)"
      by (simp add: toLowerCase_char_def Let_def)
    moreover have "(char_of (?n + 32) = l) = (?n + 32 = of_char l)"
      using high by (intro char_of_shift) simp
    moreover have "c \<noteq> l" using high l by auto
    moreover have "?n + 32 \<noteq> of_char l" using high l by simp
    ultimately show ?thesis by (simp add: same_letter_def)
  next
    case keep
    then have "toLowerCase_char c = c"
      unfolding toLowerCase_char_def Let_def by (simp only: if_False)
    moreover have "?n + 32 \<noteq> of_char l" using keep(1) l by arith
    ultimately show ?thesis by (simp add: same_letter_def)
  qed
qed

lemma toLowerCase_window:
  assumes "list_all lower_letter sig"
  shows "map toLowerCase_char mid = sig \<longleftrightarrow> list_all2 same_letter mid sig"
  using assms
proof (induction sig arbitrary: mid)
  case Nil
  show ?case by simp
next
  case (Cons l sig)
  show ?case
  proof (cases mid)
    case Nil
    then show ?thesis by simp
  next
    case (Cons c cs)
    with Cons.prems Cons.IH [of cs] show ?thesis
      by (simp add: toLowerCase_char_letter)
  qed
qed

text \<open>
  The search of the source, \<open>ua.toLowerCase().includes(sig)\<close>, finds exactly the values
  that hold the signature with letter case ignored.
\<close>

lemma includes_toLowerCase:
  assumes "list_all lower_letter sig"
  shows "includes_str (toLowerCase s) sig \<longleftrightarrow> contains_ignoring_case s sig"
proof
  assume "includes_str (toLowerCase s) sig"
  then obtain pre post where "map toLowerCase_char s = pre @ sig @ post"
    unfolding includes_str_iff toLowerCase_def by blast
  then obtain a r where 1: "s = a @ r" and "map toLowerCase_char r = sig @ post"
    by (metis map_eq_append_conv)
  then obtain b c where 2: "r = b @ c" and "map toLowerCase_char b = sig"
    by (metis map_eq_append_conv)
  from 1 2 have s: "s = a @ b @ c" by simp
  from \<open>map toLowerCase_char b = sig\<close> have "list_all2 same_letter b sig"
    using assms by (simp add: toLowerCase_window)
  with s show "contains_ignoring_case s sig"
    unfolding contains_ignoring_case_def by blast
next
  assume "contains_ignoring_case s sig"
  then obtain a b c where s: "s = a @ b @ c" and "list_all2 same_letter b sig"
    unfolding contains_ignoring_case_def by blast
  then have "map toLowerCase_char b = sig"
    using assms by (simp add: toLowerCase_window)
  with s have "toLowerCase s = toLowerCase a @ sig @ toLowerCase c"
    by (simp add: toLowerCase_def)
  then show "includes_str (toLowerCase s) sig"
    unfolding includes_str_iff by blast
qed

lemma postman_lower: "list_all lower_letter ''postman''"
  by (simp add: lower_letter_def)

lemma not_contains_empty: "\<not> contains_ignoring_case [] ''postman''"
  by (auto simp: contains_ignoring_case_def)

section \<open>The development bypass\<close>

lemma dev_bypass_iff:
  "dev_bypass E req \<longleftrightarrow>
     NODE_ENV E \<noteq> Some ''production'' \<and>
     (\<exists>h. user_agent req = Some h \<and> contains_ignoring_case h ''postman'')"
proof (cases "user_agent req")
  case None
  then have "dev_bypass E req = (NODE_ENV E \<noteq> Some ''production'' \<and> includes_str (toLowerCase []) ''postman'')"
    by (simp add: dev_bypass_def)
  with None show ?thesis
    by (simp add: includes_toLowerCase [OF postman_lower] not_contains_empty)
next
  case (Some h)
  then have "dev_bypass E req = (NODE_ENV E \<noteq> Some ''production'' \<and> includes_str (toLowerCase h) ''postman'')"
    by (cases "h = []") (simp_all add: dev_bypass_def)
  with Some show ?thesis
    by (simp add: includes_toLowerCase [OF postman_lower])
qed

lemma bypassed_iff: "arcjet_middleware E aj req = [CallNext] \<longleftrightarrow> dev_bypass E req"
  by (simp add: arcjet_middleware_def)

lemma consulted_iff: "AjProtect n \<in> set (arcjet_middleware E aj req) \<longleftrightarrow> n = 1 \<and> \<not> dev_bypass E req"
  by (auto simp: arcjet_middleware_def on_decision_def split: sum.splits)

text \<open>
  C2. The rate-limit stage passes control on without calling the decision service exactly
  when \<open>NODE_ENV\<close> is not \<open>production\<close> and the User-Agent holds the signature
  \<open>postman\<close>; in production every request is submitted to the decision service, whatever
  the header.
\<close>

theorem bypass_iff_dev_and_signature:
  "((arcjet_middleware E aj req = [CallNext]) =
      (NODE_ENV E \<noteq> Some ''production'' \<and>
       (\<exists>h. user_agent req = Some h \<and> contains_ignoring_case h ''postman''))) \<and>
   ((AjProtect 1 \<in> set (arcjet_middleware E aj req)) =
      (\<not> (NODE_ENV E \<noteq> Some ''production'' \<and>
       (\<exists>h. user_agent req = Some h \<and> contains_ignoring_case h ''postman'')))) \<and>
   (NODE_ENV E = Some ''production'' \<longrightarrow> hd (arcjet_middleware E aj req) = AjProtect 1)"
proof (intro conjI impI)
  show "(arcjet_middleware E aj req = [CallNext]) =
     (NODE_ENV E \<noteq> Some ''production'' \<and>
      (\<exists>h. user_agent req = Some h \<and> contains_ignoring_case h ''postman''))"
    by (simp only: bypassed_iff dev_bypass_iff)
  show "(AjProtect 1 \<in> set (arcjet_middleware E aj req)) =
     (\<not> (NODE_ENV E \<noteq> Some ''production'' \<and>
      (\<exists>h. user_agent req = Some h \<and> contains_ignoring_case h ''postman'')))"
    by (simp only: consulted_iff dev_bypass_iff) simp
  assume "NODE_ENV E = Some ''production''"
  then have "\<not> dev_bypass E req" by (simp add: dev_bypass_iff)
  then show "hd (arcjet_middleware E aj req) = AjProtect 1"
    by (simp add: arcjet_middleware_def)
qed

theorem bypass_iff_dev_and_signature_witness:
  "NODE_ENV production = Some ''production'' \<and>
   hd (arcjet_middleware production (protect sample_world)
        (request_of GET ''/api/products'' (Some ''PostmanRuntime/7.32.3''))) = AjProtect 1 \<and>
   arcjet_middleware development (protect sample_world)
     (request_of GET ''/api/products'' (Some ''PostmanRuntime/7.32.3'')) = [CallNext]"
proof -
  let ?req = "request_of GET ''/api/products'' (Some ''PostmanRuntime/7.32.3'')"
  have p: "NODE_ENV production = Some ''production''"
    by (simp add: production_def)
  have d: "NODE_ENV development \<noteq> Some ''production''"
    by (simp add: development_def)
  have "list_all2 same_letter ''Postman'' ''postman''"
    by (simp add: same_letter_def)
  then have "contains_ignoring_case ([] @ ''Postman'' @ ''Runtime/7.32.3'') ''postman''"
    unfolding contains_ignoring_case_def by blast
  then have c: "\<exists>h. user_agent ?req = Some h \<and> contains_ignoring_case h ''postman''"
    by (simp add: request_of_def)
  from bypass_iff_dev_and_signature [of production "protect sample_world" ?req] p
  have "hd (arcjet_middleware production (protect sample_world) ?req) = AjProtect 1"
    by blast
  moreover from bypass_iff_dev_and_signature [of development "protect sample_world" ?req] d c
  have "arcjet_middleware development (protect sample_world) ?req = [CallNext]"
    by blast
  ultimately show ?thesis using p by blast
qed

section \<open>What the stage answers to a decision\<close>

lemma called_effects:
  assumes "AjProtect 1 \<in> set (arcjet_middleware E aj req)"
  shows "arcjet_middleware E aj req =
           AjProtect 1 # (case aj req 1 of
                            Inr d \<Rightarrow> on_decision d
                          | Inl e \<Rightarrow> [ConsoleLog ''Arcjet error'', CallNextErr e])"
  using assms by (simp add: arcjet_middleware_def split: if_splits)



section \<open>A failing call to the decision service\<close>

text \<open>
  C4. When the call to the decision service is made and throws, the stage logs, calls
  \<open>next(error)\<close> and nothing else: it writes no answer and never calls plain \<open>next()\<close>.
  In the application the error ends in Express' error responder and no later layer runs.
\<close>

theorem protect_failure_fails_closed:
  assumes "AjProtect 1 \<in> set (arcjet_middleware E (protect W) req)"
    and "protect W req 1 = Inl e"
  shows
    "arcjet_middleware E (protect W) req =
       [AjProtect 1, ConsoleLog ''Arcjet error'', CallNextErr e] \<and>
     CallNext \<notin> set (arcjet_middleware E (protect W) req) \<and>
     stage_action W E arcjet req = NextErr e \<and>
     run_layers W E (AppUse ''/'' arcjet # later) req = ([arcjet], DefaultError e)"
proof -
  have eff: "arcjet_middleware E (protect W) req =
       [AjProtect 1, ConsoleLog ''Arcjet error'', CallNextErr e]"
    using called_effects [OF assms(1)] assms(2) by simp
  then show ?thesis by simp
qed

theorem protect_failure_fails_closed_witness:
  "AjProtect 1 \<in> set (arcjet_middleware production
      (protect unreachable_service_world)
      (request_of GET ''/api/products'' (Some ''PostmanRuntime/7.32.3''))) \<and>
   run_layers unreachable_service_world production
      (AppUse ''/'' arcjet # dispatcher_layers sample_world productRoutes)
      (request_of GET ''/api/products'' (Some ''PostmanRuntime/7.32.3'')) =
     ([arcjet], DefaultError ''ECONNREFUSED'')"
proof -
  let ?W = "unreachable_service_world"
  let ?req = "request_of GET ''/api/products'' (Some ''PostmanRuntime/7.32.3'')"
  have called: "AjProtect 1 \<in> set (arcjet_middleware production (protect ?W) ?req)"
    by (simp add: consulted_iff dev_bypass_iff production_def)
  have "protect ?W ?req 1 = Inl ''ECONNREFUSED''"
    by (simp add: unreachable_service_world_def)
  from protect_failure_fails_closed [OF called this] called show ?thesis by blast
qed

section \<open>The header the bypass reads\<close>

text \<open>
  C10. A request without a User-Agent header is read as one with the empty string and is
  never bypassed: it is submitted to the decision service. Outside production, any
  User-Agent that holds \<open>postman\<close> somewhere, in any letter case, is bypassed.
\<close>

theorem bypass_header_reading:
  "dev_bypass E (req\<lparr>user_agent := None\<rparr>) = dev_bypass E (req\<lparr>user_agent := Some ''''\<rparr>) \<and>
   (user_agent req = None \<longrightarrow>
      arcjet_middleware E aj req \<noteq> [CallNext] \<and>
      AjProtect 1 \<in> set (arcjet_middleware E aj req)) \<and>
   (NODE_ENV E \<noteq> Some ''production'' \<and> user_agent req = Some (pre @ mid @ post) \<and>
    list_all2 same_letter mid ''postman'' \<longrightarrow>
      arcjet_middleware E aj req = [CallNext])"
proof (intro conjI impI)
  show "dev_bypass E (req\<lparr>user_agent := None\<rparr>) = dev_bypass E (req\<lparr>user_agent := Some ''''\<rparr>)"
    by (simp add: dev_bypass_def)
next
  assume "user_agent req = None"
  then have "\<not> dev_bypass E req" by (simp add: dev_bypass_iff)
  then show "arcjet_middleware E aj req \<noteq> [CallNext]"
    and "AjProtect 1 \<in> set (arcjet_middleware E aj req)"
    by (simp_all add: bypassed_iff consulted_iff)
next
  assume a: "NODE_ENV E \<noteq> Some ''production'' \<and> user_agent req = Some (pre @ mid @ post) \<and>
    list_all2 same_letter mid ''postman''"
  then have "contains_ignoring_case (pre @ mid @ post) ''postman''"
    unfolding contains_ignoring_case_def by blast
  with a have "dev_bypass E req" by (simp add: dev_bypass_iff)
  then show "arcjet_middleware E aj req = [CallNext]" by (simp add: bypassed_iff)
qed

theorem bypass_header_reading_witness:
  "user_agent (request_of GET ''/api/products'' None) = None \<and>
   AjProtect 1 \<in> set (arcjet_middleware development (protect sample_world)
                        (request_of GET ''/api/products'' None)) \<and>
   NODE_ENV development \<noteq> Some ''production'' \<and>
   list_all2 same_letter ''pOsTmAn'' ''postman'' \<and>
   arcjet_middleware development (protect sample_world)
     (request_of GET ''/api/products'' (Some (''Mozilla/5.0 '' @ ''pOsTmAn'' @ ''Runtime/7.32.3'')))
     = [CallNext]"
proof -
  have n: "user_agent (request_of GET ''/api/products'' None) = None"
    by (simp add: request_of_def)
  have d: "NODE_ENV development \<noteq> Some ''production''"
    by (simp add: development_def)
  have l: "list_all2 same_letter ''pOsTmAn'' ''postman''"
    by (simp add: same_letter_def)
  have u: "user_agent (request_of GET ''/api/products''
              (Some (''Mozilla/5.0 '' @ ''pOsTmAn'' @ ''Runtime/7.32.3'')))
           = Some (''Mozilla/5.0 '' @ ''pOsTmAn'' @ ''Runtime/7.32.3'')"
    by (simp add: request_of_def)
  from bypass_header_reading [of development "request_of GET ''/api/products'' None"
      "protect sample_world"] n
  have 1: "AjProtect 1 \<in> set (arcjet_middleware development (protect sample_world)
                        (request_of GET ''/api/products'' None))"
    by blast
  from bypass_header_reading [of development
      "request_of GET ''/api/products'' (Some (''Mozilla/5.0 '' @ ''pOsTmAn'' @ ''Runtime/7.32.3''))"
      "protect sample_world" "''Mozilla/5.0 ''" "''pOsTmAn''" "''Runtime/7.32.3''"] d l u
  have 2: "arcjet_middleware development (protect sample_world)
     (request_of GET ''/api/products'' (Some (''Mozilla/5.0 '' @ ''pOsTmAn'' @ ''Runtime/7.32.3'')))
     = [CallNext]"
    by blast
  from n 1 d l 2 show ?thesis by blast
qed

section \<open>The router that the server imports\<close>

lemma part_000_has_all_five:
  "api_handler part_000 GET ''/api/products'' = Some getProducts \<and>
   api_handler part_000 GET ''/api/products/1'' = Some getProduct \<and>
   api_handler part_000 POST ''/api/products'' = Some createProduct \<and>
   api_handler part_000 PUT ''/api/products/1'' = Some updateProduct \<and>
   api_handler part_000 DELETE ''/api/products/1'' = Some deleteProduct"
  by code_simp

text \<open>
  C1. The router of src/backend/routes/productRoutes.js, the one server.js imports and
  mounts at \<open>/api/products\<close>, has a handler for the list and the create request and none
  for \<open>GET\<close>, \<open>PUT\<close> and \<open>DELETE\<close> on \<open>/api/products/:id\<close>: with a controller that
  answers whatever it is given, \<open>GET /api/products/1\<close> still ends in Express' "not found".
\<close>

theorem imported_router_handlers:
  "api_handler productRoutes GET ''/api/products'' = Some getAllProducts \<and>
   api_handler productRoutes POST ''/api/products'' = Some createProduct \<and>
   api_handler productRoutes GET ''/api/products/1'' = None \<and>
   api_handler productRoutes PUT ''/api/products/1'' = None \<and>
   api_handler productRoutes DELETE ''/api/products/1'' = None \<and>
   serve sample_world development (request_of GET ''/api/products/1'' None) =
     ([express_json, cors, helmet False, morgan ''dev'', arcjet,
       product_router productRoutes, express_static ''/app/frontend/dist''],
      DefaultNotFound)"
  by code_simp

section \<open>The layers of the running server\<close>

lemma server_stack_eq:
  "server_stack W E =
     (admission_layers @ dispatcher_layers W productRoutes) @
     (if NODE_ENV E = Some ''production'' then [AppUse ''/'' catch_all] else [])"
  by (simp add: server_stack_def replay_def bootstrap_def initDB_then_def initDB_def
      then_callback_def admission_layers_def dispatcher_layers_def initial_app_def)

text \<open>Walking two lists of layers in a row: the second is reached when the first hands on.\<close>

lemma run_layers_append:
  "run_layers W E (xs @ ys) req =
     (if snd (run_layers W E xs req) = DefaultNotFound
      then (fst (run_layers W E xs req) @ fst (run_layers W E ys req),
            snd (run_layers W E ys req))
      else run_layers W E xs req)"
proof (induction xs)
  case Nil
  show ?case by simp
next
  case (Cons l ls)
  show ?case
  proof (cases "layer_match l req")
    case None
    with Cons.IH show ?thesis by simp
  next
    case (Some req')
    with Cons.IH show ?thesis
      by (cases "stage_action W E (stage_of l) req'") (simp_all add: apfst_def map_prod_def split_beta)
  qed
qed

lemma test_path_handler_answers: "test_path_handler W \<noteq> Next"
  by (simp add: test_path_handler_def Let_def split: sum.splits)

lemma api_test_handler_answers: "api_test_handler \<noteq> Next"
  by (simp add: api_test_handler_def)

text \<open>The stages the five admission layers run: the first ones, up to the first that does not hand on.\<close>

lemma admission_run:
  "prefix (fst (run_layers W E admission_layers req)) (map stage_of admission_layers) \<and>
   (snd (run_layers W E admission_layers req) = DefaultNotFound \<longrightarrow>
      fst (run_layers W E admission_layers req) = map stage_of admission_layers)"
  by (simp add: admission_layers_def apfst_def map_prod_def split: action.splits)

section \<open>The order of the admission stages\<close>

text \<open>
  C7. The first five layers of the server are, in this order, body parsing, CORS, helmet
  with \<open>contentSecurityPolicy: false\<close>, access logging and the rate-limit stage; each of
  them takes every request; and the stages a request runs are either the first few of
  these five (one of them answered or failed) or all five, in this order, followed by
  the routing stages.
\<close>

theorem admission_order:
  "take 5 (server_stack W E) =
     [AppUse ''/'' express_json, AppUse ''/'' cors, AppUse ''/'' (helmet False),
      AppUse ''/'' (morgan ''dev''), AppUse ''/'' arcjet] \<and>
   list_all (\<lambda>l. layer_match l req = Some req) (take 5 (server_stack W E)) \<and>
   (prefix (fst (serve W E req)) [express_json, cors, helmet False, morgan ''dev'', arcjet] \<or>
    prefix [express_json, cors, helmet False, morgan ''dev'', arcjet] (fst (serve W E req))) \<and>
   ((\<exists>s \<in> set (fst (serve W E req)).
        s \<notin> set [express_json, cors, helmet False, morgan ''dev'', arcjet]) \<longrightarrow>
      take 5 (fst (serve W E req)) = [express_json, cors, helmet False, morgan ''dev'', arcjet])"
proof -
  let ?five = "[express_json, cors, helmet False, morgan ''dev'', arcjet]"
  let ?rest = "dispatcher_layers W productRoutes @
     (if NODE_ENV E = Some ''production'' then [AppUse ''/'' catch_all] else [])"
  have five: "map stage_of admission_layers = ?five"
    by (simp add: admission_layers_def)
  have stack: "server_stack W E = admission_layers @ ?rest"
    by (simp add: server_stack_eq)
  have t: "take 5 (server_stack W E) = admission_layers"
    unfolding stack by (simp add: admission_layers_def)
  have m: "list_all (\<lambda>l. layer_match l req = Some req) admission_layers"
    by (simp add: admission_layers_def)
  have run: "serve W E req =
     (if snd (run_layers W E admission_layers req) = DefaultNotFound
      then (fst (run_layers W E admission_layers req) @ fst (run_layers W E ?rest req),
            snd (run_layers W E ?rest req))
      else run_layers W E admission_layers req)"
    unfolding serve_def stack by (rule run_layers_append)
  have dich: "prefix (fst (serve W E req)) ?five \<or> prefix ?five (fst (serve W E req))"
  proof (cases "snd (run_layers W E admission_layers req) = DefaultNotFound")
    case True
    with admission_run [of W E req] five
    have "fst (run_layers W E admission_layers req) = ?five" by simp
    with True run have "fst (serve W E req) = ?five @ fst (run_layers W E ?rest req)" by simp
    then show ?thesis by simp
  next
    case False
    with run have "fst (serve W E req) = fst (run_layers W E admission_layers req)" by simp
    with admission_run [of W E req] five show ?thesis by simp
  qed
  have after: "take 5 (fst (serve W E req)) = ?five"
    if "\<exists>s \<in> set (fst (serve W E req)). s \<notin> set ?five"
  proof -
    from that have "\<not> prefix (fst (serve W E req)) ?five"
      by (meson set_mono_prefix subsetD)
    with dich obtain zs where "fst (serve W E req) = ?five @ zs"
      by (auto simp: prefix_def)
    then show ?thesis by simp
  qed
  from t m dich after show ?thesis
    by (simp only: admission_layers_def) blast
qed

theorem admission_order_witness:
  "product_router productRoutes \<in> set (fst (serve sample_world development
      (request_of GET ''/api/products'' None))) \<and>
   product_router productRoutes \<notin> set [express_json, cors, helmet False, morgan ''dev'', arcjet] \<and>
   take 5 (fst (serve sample_world development (request_of GET ''/api/products'' None))) =
     [express_json, cors, helmet False, morgan ''dev'', arcjet] \<and>
   fst (serve sample_world development (request_of GET ''/api/products'' None)) =
     [express_json, cors, helmet False, morgan ''dev'', arcjet, product_router productRoutes]"
proof -
  let ?req = "request_of GET ''/api/products'' None"
  have v: "fst (serve sample_world development ?req) =
     [express_json, cors, helmet False, morgan ''dev'', arcjet, product_router productRoutes]"
    by code_simp
  then have 1: "product_router productRoutes \<in> set (fst (serve sample_world development ?req))"
    by simp
  have 2: "product_router productRoutes \<notin> set [express_json, cors, helmet False, morgan ''dev'', arcjet]"
    by simp
  from 1 2 have "\<exists>s \<in> set (fst (serve sample_world development ?req)).
        s \<notin> set [express_json, cors, helmet False, morgan ''dev'', arcjet]"
    by blast
  with admission_order [of sample_world development ?req]
  have "take 5 (fst (serve sample_world development ?req)) =
     [express_json, cors, helmet False, morgan ''dev'', arcjet]"
    by blast
  with 1 2 v show ?thesis by blast
qed

section \<open>The fallback to the entry document\<close>

lemma catch_all_answers:
  assumes "\<not> startsWith (req_path req) ''/api/''" and "req_path req \<noteq> ''/test-path''"
  shows "run_layers W E [AppUse ''/'' catch_all] req =
           ([catch_all],
            Responded (if existsSync W (indexPath W) then SendFile (indexPath W)
                       else Send 404 ''text/html; charset=utf-8'' ''Frontend build not found''))"
  using assms by (simp add: catch_all_handler_def)

text \<open>
  The claim C5 as stated fails. The API root is \<open>/api/products\<close>, where the router is
  mounted, but the catch-all stage hands on every path that starts with \<open>/api/\<close>. In
  production \<open>GET /api/unknown\<close> is answered by none of the nine layers, is not under
  \<open>/api/products\<close> and is not \<open>/test-path\<close>; the catch-all stage runs and hands it on,
  so it ends in Express' own "not found" and gets neither the entry document (which exists
  here) nor the "build not found" message. And where the stage does send that message,
  it goes out as \<open>text/html\<close>, not as plain text.
\<close>

theorem api_unknown_not_fallback_counterexample:
  "NODE_ENV production = Some ''production'' \<and>
   existsSync built_world (indexPath built_world) \<and>
   snd (run_layers built_world production
          (admission_layers @ dispatcher_layers built_world productRoutes)
          (request_of GET ''/api/unknown'' None)) = DefaultNotFound \<and>
   \<not> startsWith ''/api/unknown'' ''/api/products'' \<and>
   mount_strip ''/api/products'' ''/api/unknown'' = None \<and>
   ''/api/unknown'' \<noteq> ''/test-path'' \<and>
   serve built_world production (request_of GET ''/api/unknown'' None) =
     ([express_json, cors, helmet False, morgan ''dev'', arcjet,
       express_static ''/app/frontend/dist'', catch_all],
      DefaultNotFound) \<and>
   serve sample_world production (request_of GET ''/api/unknown'' None) =
     ([express_json, cors, helmet False, morgan ''dev'', arcjet,
       express_static ''/app/frontend/dist'', catch_all],
      DefaultNotFound) \<and>
   snd (serve sample_world production (request_of GET ''/dashboard'' None)) =
     Responded (Send 404 ''text/html; charset=utf-8'' ''Frontend build not found'')"
  by code_simp

text \<open>
  C5, amended. The server's layers are the nine registered by the module followed, in
  production only, by the catch-all stage. In production a request that none of the nine
  answers and whose path neither starts with \<open>/api/\<close> nor equals \<open>/test-path\<close> is
  answered by the catch-all stage: with the entry document when that file exists, with
  404 and the text "Frontend build not found", sent as \<open>text/html\<close>, otherwise. A
  request that none of the nine answers and whose path starts with \<open>/api/\<close>, under
  \<open>/api/products\<close> or not, or equals \<open>/test-path\<close> is handed on by the catch-all stage
  and ends in Express' own "not found". Outside production no catch-all stage is among
  the layers, and a request that none of the nine answers ends in Express' own
  "not found".
\<close>

theorem production_fallback:
  "server_stack W E =
     (admission_layers @ dispatcher_layers W productRoutes) @
     (if NODE_ENV E = Some ''production'' then [AppUse ''/'' catch_all] else []) \<and>
   (NODE_ENV E = Some ''production'' \<and>
    snd (run_layers W E (admission_layers @ dispatcher_layers W productRoutes) req)
      = DefaultNotFound \<and>
    \<not> startsWith (req_path req) ''/api/'' \<and> req_path req \<noteq> ''/test-path'' \<longrightarrow>
      snd (serve W E req) =
        Responded (if existsSync W (indexPath W) then SendFile (indexPath W)
                   else Send 404 ''text/html; charset=utf-8'' ''Frontend build not found'') \<and>
      last (fst (serve W E req)) = catch_all) \<and>
   (NODE_ENV E = Some ''production'' \<and>
    snd (run_layers W E (admission_layers @ dispatcher_layers W productRoutes) req)
      = DefaultNotFound \<and>
    (startsWith (req_path req) ''/api/'' \<or> req_path req = ''/test-path'') \<longrightarrow>
      snd (serve W E req) = DefaultNotFound) \<and>
   (NODE_ENV E \<noteq> Some ''production'' \<longrightarrow>
      catch_all \<notin> stage_of ` set (server_stack W E) \<and>
      catch_all \<notin> set (fst (serve W E req)) \<and>
      (snd (run_layers W E (admission_layers @ dispatcher_layers W productRoutes) req)
         = DefaultNotFound \<longrightarrow> snd (serve W E req) = DefaultNotFound))"
proof (intro conjI impI)
  show "server_stack W E =
     (admission_layers @ dispatcher_layers W productRoutes) @
     (if NODE_ENV E = Some ''production'' then [AppUse ''/'' catch_all] else [])"
    by (rule server_stack_eq)
next
  assume a: "NODE_ENV E = Some ''production'' \<and>
    snd (run_layers W E (admission_layers @ dispatcher_layers W productRoutes) req)
      = DefaultNotFound \<and>
    \<not> startsWith (req_path req) ''/api/'' \<and> req_path req \<noteq> ''/test-path''"
  then have stack: "server_stack W E =
      (admission_layers @ dispatcher_layers W productRoutes) @ [AppUse ''/'' catch_all]"
    by (simp add: server_stack_eq)
  from a have c: "run_layers W E [AppUse ''/'' catch_all] req =
           ([catch_all],
            Responded (if existsSync W (indexPath W) then SendFile (indexPath W)
                       else Send 404 ''text/html; charset=utf-8'' ''Frontend build not found''))"
    by (intro catch_all_answers) simp_all
  from a have "serve W E req =
      (fst (run_layers W E (admission_layers @ dispatcher_layers W productRoutes) req) @
         fst (run_layers W E [AppUse ''/'' catch_all] req),
       snd (run_layers W E [AppUse ''/'' catch_all] req))"
    unfolding serve_def stack by (subst run_layers_append) simp
  with c show "snd (serve W E req) =
        Responded (if existsSync W (indexPath W) then SendFile (indexPath W)
                   else Send 404 ''text/html; charset=utf-8'' ''Frontend build not found'')"
    and "last (fst (serve W E req)) = catch_all"
    by simp_all
next
  assume a: "NODE_ENV E = Some ''production'' \<and>
    snd (run_layers W E (admission_layers @ dispatcher_layers W productRoutes) req)
      = DefaultNotFound \<and>
    (startsWith (req_path req) ''/api/'' \<or> req_path req = ''/test-path'')"
  then have stack: "server_stack W E =
      (admission_layers @ dispatcher_layers W productRoutes) @ [AppUse ''/'' catch_all]"
    by (simp add: server_stack_eq)
  from a have "run_layers W E [AppUse ''/'' catch_all] req = ([catch_all], DefaultNotFound)"
    by (simp add: catch_all_handler_def)
  with a show "snd (serve W E req) = DefaultNotFound"
    unfolding serve_def stack by (subst run_layers_append) simp
next
  assume d: "NODE_ENV E \<noteq> Some ''production''"
  then have stack: "server_stack W E = admission_layers @ dispatcher_layers W productRoutes"
    by (simp add: server_stack_eq)
  show "catch_all \<notin> stage_of ` set (server_stack W E)"
    unfolding stack by (simp add: admission_layers_def dispatcher_layers_def)
  have "set (fst (run_layers W E ls req)) \<subseteq> stage_of ` set ls" for ls
  proof (induction ls)
    case Nil
    show ?case by simp
  next
    case (Cons l ls)
    then show ?case
      by (auto simp: apfst_def map_prod_def split_beta split: option.splits action.splits)
  qed
  with \<open>catch_all \<notin> stage_of ` set (server_stack W E)\<close>
  show "catch_all \<notin> set (fst (serve W E req))"
    unfolding serve_def by blast
  assume "snd (run_layers W E (admission_layers @ dispatcher_layers W productRoutes) req)
         = DefaultNotFound"
  then show "snd (serve W E req) = DefaultNotFound"
    unfolding serve_def stack by simp
qed

theorem production_fallback_witness:
  "NODE_ENV production = Some ''production'' \<and>
   snd (run_layers sample_world production
          (admission_layers @ dispatcher_layers sample_world productRoutes)
          (request_of GET ''/dashboard'' None)) = DefaultNotFound \<and>
   \<not> startsWith (req_path (request_of GET ''/dashboard'' None)) ''/api/'' \<and>
   req_path (request_of GET ''/dashboard'' None) \<noteq> ''/test-path'' \<and>
   snd (serve sample_world production (request_of GET ''/dashboard'' None)) =
     Responded (Send 404 ''text/html; charset=utf-8'' ''Frontend build not found'') \<and>
   snd (serve built_world production (request_of GET ''/dashboard'' None)) =
     Responded (SendFile ''/app/frontend/dist/index.html'') \<and>
   NODE_ENV development \<noteq> Some ''production'' \<and>
   snd (serve sample_world development (request_of GET ''/dashboard'' None)) = DefaultNotFound"
proof -
  let ?req = "request_of GET ''/dashboard'' None"
  let ?W = "built_world"
  have p: "NODE_ENV production = Some ''production''" by (simp add: production_def)
  have d: "NODE_ENV development \<noteq> Some ''production''" by (simp add: development_def)
  have u: "snd (run_layers sample_world production
          (admission_layers @ dispatcher_layers sample_world productRoutes) ?req) = DefaultNotFound"
    by code_simp
  have u': "snd (run_layers ?W production
          (admission_layers @ dispatcher_layers ?W productRoutes) ?req) = DefaultNotFound"
    by code_simp
  have u'': "snd (run_layers sample_world development
          (admission_layers @ dispatcher_layers sample_world productRoutes) ?req) = DefaultNotFound"
    by code_simp
  have a: "\<not> startsWith (req_path ?req) ''/api/''" by code_simp
  have t: "req_path ?req \<noteq> ''/test-path''" by (simp add: request_of_def)
  have e: "\<not> existsSync sample_world (indexPath sample_world)"
    by (simp add: sample_world_def)
  have e': "existsSync ?W (indexPath ?W)" by (simp add: built_world_def)
  have i: "indexPath ?W = ''/app/frontend/dist/index.html''"
    by (simp add: indexPath_def built_world_def sample_world_def)
  from production_fallback [of sample_world production ?req] p u a t e
  have 1: "snd (serve sample_world production ?req) =
     Responded (Send 404 ''text/html; charset=utf-8'' ''Frontend build not found'')"
    by simp
  from production_fallback [of ?W production ?req] p u' a t e' i
  have 2: "snd (serve ?W production ?req) = Responded (SendFile ''/app/frontend/dist/index.html'')"
    by simp
  from production_fallback [of sample_world development ?req] d u''
  have 3: "snd (serve sample_world development ?req) = DefaultNotFound"
    by blast
  from p u a t 1 2 d 3 show ?thesis by blast
qed

section \<open>The order of the dispatcher\<close>

text \<open>
  The claim C6 as stated fails: a request under \<open>/api/products\<close> for which the router has
  no route is handed on, and the static stage is run for it. Here the static directory
  holds a file for that path, and the request is answered with it.
\<close>

theorem api_prefix_reaches_static_counterexample:
  "layer_match (AppUse ''/api/products'' (product_router productRoutes))
      (request_of GET ''/api/products/1/reviews'' None)
     = Some (request_of GET ''/1/reviews'' None) \<and>
   run_layers static_file_world development
      (dispatcher_layers static_file_world productRoutes)
      (request_of GET ''/api/products/1/reviews'' None)
     = ([product_router productRoutes, express_static ''/app/frontend/dist''],
        Responded (SendFile ''/app/frontend/dist/api/products/1/reviews''))"
  by code_simp

text \<open>
  C6, amended. The dispatcher's four layers are registered, and consulted, in this order:
  \<open>GET /test-path\<close>, the router under \<open>/api/products\<close>, \<open>GET /api/test\<close>, the static
  directory. A layer that ends the request precludes all later ones: the two diagnostic
  layers never hand on a request they take, and neither does the router when one of its
  routes ends the request. A request under \<open>/api/products\<close> that the router hands back
  goes on to the later layers.
\<close>

theorem dispatcher_order:
  "dispatcher_layers W r =
     [AppGet ''/test-path'' test_path,
      AppUse ''/api/products'' (product_router r),
      AppGet ''/api/test'' api_test,
      AppUse ''/'' (express_static (distPath W))] \<and>
   subseq (fst (run_layers W E (dispatcher_layers W r) req))
     [test_path, product_router r, api_test, express_static (distPath W)] \<and>
   (layer_match (AppGet ''/test-path'' test_path) req \<noteq> None \<longrightarrow>
      fst (run_layers W E (dispatcher_layers W r) req) = [test_path]) \<and>
   (layer_match (AppGet ''/test-path'' test_path) req = None \<and>
    layer_match (AppUse ''/api/products'' (product_router r)) req = Some req' \<and>
    router_handle W r req' \<noteq> Next \<longrightarrow>
      fst (run_layers W E (dispatcher_layers W r) req) = [product_router r]) \<and>
   (layer_match (AppGet ''/test-path'' test_path) req = None \<and>
    layer_match (AppUse ''/api/products'' (product_router r)) req = Some req' \<and>
    router_handle W r req' = Next \<longrightarrow>
      run_layers W E (dispatcher_layers W r) req =
        apfst (Cons (product_router r))
          (run_layers W E
             [AppGet ''/api/test'' api_test, AppUse ''/'' (express_static (distPath W))] req)) \<and>
   (layer_match (AppGet ''/test-path'' test_path) req = None \<and>
    layer_match (AppUse ''/api/products'' (product_router r)) req = None \<and>
    layer_match (AppGet ''/api/test'' api_test) req \<noteq> None \<longrightarrow>
      fst (run_layers W E (dispatcher_layers W r) req) = [api_test]) \<and>
   (layer_match (AppGet ''/test-path'' test_path) req = None \<and>
    layer_match (AppUse ''/api/products'' (product_router r)) req = None \<and>
    layer_match (AppGet ''/api/test'' api_test) req = None \<longrightarrow>
      fst (run_layers W E (dispatcher_layers W r) req) = [express_static (distPath W)])"
proof (intro conjI impI)
  show "dispatcher_layers W r =
     [AppGet ''/test-path'' test_path,
      AppUse ''/api/products'' (product_router r),
      AppGet ''/api/test'' api_test,
      AppUse ''/'' (express_static (distPath W))]"
    by (simp add: dispatcher_layers_def)
next
  have "subseq (fst (run_layers W E ls req)) (map stage_of ls)" for ls
  proof (induction ls)
    case Nil
    show ?case by simp
  next
    case (Cons l ls)
    then show ?case
      by (auto simp: apfst_def map_prod_def split_beta split: option.splits action.splits)
  qed
  from this [of "dispatcher_layers W r"]
  show "subseq (fst (run_layers W E (dispatcher_layers W r) req))
     [test_path, product_router r, api_test, express_static (distPath W)]"
    by (simp add: dispatcher_layers_def)
next
  assume "layer_match (AppGet ''/test-path'' test_path) req \<noteq> None"
  then obtain q where q: "layer_match (AppGet ''/test-path'' test_path) req = Some q" by blast
  show "fst (run_layers W E (dispatcher_layers W r) req) = [test_path]"
    using test_path_handler_answers [of W]
    by (cases "test_path_handler W") (simp_all add: dispatcher_layers_def q del: layer_match.simps)
next
  assume a: "layer_match (AppGet ''/test-path'' test_path) req = None \<and>
    layer_match (AppUse ''/api/products'' (product_router r)) req = Some req' \<and>
    router_handle W r req' \<noteq> Next"
  then show "fst (run_layers W E (dispatcher_layers W r) req) = [product_router r]"
    by (cases "router_handle W r req'") (simp_all add: dispatcher_layers_def del: layer_match.simps)
next
  assume a: "layer_match (AppGet ''/test-path'' test_path) req = None \<and>
    layer_match (AppUse ''/api/products'' (product_router r)) req = Some req' \<and>
    router_handle W r req' = Next"
  then show "run_layers W E (dispatcher_layers W r) req =
        apfst (Cons (product_router r))
          (run_layers W E
             [AppGet ''/api/test'' api_test, AppUse ''/'' (express_static (distPath W))] req)"
    by (simp add: dispatcher_layers_def del: layer_match.simps)
next
  assume a: "layer_match (AppGet ''/test-path'' test_path) req = None \<and>
    layer_match (AppUse ''/api/products'' (product_router r)) req = None \<and>
    layer_match (AppGet ''/api/test'' api_test) req \<noteq> None"
  then obtain q where q: "layer_match (AppGet ''/api/test'' api_test) req = Some q" by blast
  with a show "fst (run_layers W E (dispatcher_layers W r) req) = [api_test]"
    by (simp add: dispatcher_layers_def api_test_handler_def del: layer_match.simps)
next
  assume a: "layer_match (AppGet ''/test-path'' test_path) req = None \<and>
    layer_match (AppUse ''/api/products'' (product_router r)) req = None \<and>
    layer_match (AppGet ''/api/test'' api_test) req = None"
  have s: "layer_match (AppUse ''/'' (express_static (distPath W))) req = Some req" by simp
  from a show "fst (run_layers W E (dispatcher_layers W r) req) = [express_static (distPath W)]"
    by (cases "static_mw W (distPath W) req")
       (simp_all add: dispatcher_layers_def s del: layer_match.simps)
qed

theorem dispatcher_order_witness:
  "layer_match (AppGet ''/test-path'' test_path) (request_of GET ''/test-path'' None) \<noteq> None \<and>
   fst (run_layers sample_world development (dispatcher_layers sample_world productRoutes)
          (request_of GET ''/test-path'' None)) = [test_path] \<and>
   layer_match (AppGet ''/test-path'' test_path) (request_of POST ''/api/products'' None) = None \<and>
   layer_match (AppUse ''/api/products'' (product_router productRoutes))
      (request_of POST ''/api/products'' None) = Some (request_of POST ''/'' None) \<and>
   router_handle sample_world productRoutes (request_of POST ''/'' None) \<noteq> Next \<and>
   fst (run_layers sample_world development (dispatcher_layers sample_world productRoutes)
          (request_of POST ''/api/products'' None)) = [product_router productRoutes] \<and>
   layer_match (AppGet ''/test-path'' test_path) (request_of PUT ''/api/products/1'' None) = None \<and>
   layer_match (AppUse ''/api/products'' (product_router productRoutes))
      (request_of PUT ''/api/products/1'' None) = Some (request_of PUT ''/1'' None) \<and>
   router_handle sample_world productRoutes (request_of PUT ''/1'' None) = Next \<and>
   run_layers sample_world development (dispatcher_layers sample_world productRoutes)
      (request_of PUT ''/api/products/1'' None) =
     ([product_router productRoutes, express_static (distPath sample_world)], DefaultNotFound) \<and>
   layer_match (AppUse ''/api/products'' (product_router productRoutes))
      (request_of GET ''/api/test'' None) = None \<and>
   fst (run_layers sample_world development (dispatcher_layers sample_world productRoutes)
          (request_of GET ''/api/test'' None)) = [api_test] \<and>
   fst (run_layers sample_world development (dispatcher_layers sample_world productRoutes)
          (request_of GET ''/logo.png'' None)) = [express_static (distPath sample_world)]"
proof -
  note d = dispatcher_order [of sample_world productRoutes development]
  let ?L1 = "AppGet ''/test-path'' test_path"
  let ?L2 = "AppUse ''/api/products'' (product_router productRoutes)"
  let ?L3 = "AppGet ''/api/test'' api_test"
  have a1: "layer_match ?L1 (request_of GET ''/test-path'' None) \<noteq> None" by code_simp
  have a2: "fst (run_layers sample_world development (dispatcher_layers sample_world productRoutes)
          (request_of GET ''/test-path'' None)) = [test_path]"
    using d [of "request_of GET ''/test-path'' None"] a1 by blast
  have b1: "layer_match ?L1 (request_of POST ''/api/products'' None) = None" by code_simp
  have b2: "layer_match ?L2 (request_of POST ''/api/products'' None)
              = Some (request_of POST ''/'' None)" by code_simp
  have b3: "router_handle sample_world productRoutes (request_of POST ''/'' None) \<noteq> Next"
    by code_simp
  have b4: "fst (run_layers sample_world development (dispatcher_layers sample_world productRoutes)
          (request_of POST ''/api/products'' None)) = [product_router productRoutes]"
    using d [of "request_of POST ''/api/products'' None" "request_of POST ''/'' None"] b1 b2 b3
    by blast
  have c1: "layer_match ?L1 (request_of PUT ''/api/products/1'' None) = None" by code_simp
  have c2: "layer_match ?L2 (request_of PUT ''/api/products/1'' None)
              = Some (request_of PUT ''/1'' None)" by code_simp
  have c3: "router_handle sample_world productRoutes (request_of PUT ''/1'' None) = Next"
    by code_simp
  have c4: "run_layers sample_world development
          [?L3, AppUse ''/'' (express_static (distPath sample_world))]
          (request_of PUT ''/api/products/1'' None)
        = ([express_static (distPath sample_world)], DefaultNotFound)"
    by code_simp
  have "run_layers sample_world development (dispatcher_layers sample_world productRoutes)
      (request_of PUT ''/api/products/1'' None) =
     apfst (Cons (product_router productRoutes))
       (run_layers sample_world development
          [?L3, AppUse ''/'' (express_static (distPath sample_world))]
          (request_of PUT ''/api/products/1'' None))"
    using d [of "request_of PUT ''/api/products/1'' None" "request_of PUT ''/1'' None"] c1 c2 c3
    by blast
  with c4 have c5: "run_layers sample_world development
      (dispatcher_layers sample_world productRoutes) (request_of PUT ''/api/products/1'' None) =
     ([product_router productRoutes, express_static (distPath sample_world)], DefaultNotFound)"
    by simp
  have e1: "layer_match ?L1 (request_of GET ''/api/test'' None) = None" by code_simp
  have e2: "layer_match ?L2 (request_of GET ''/api/test'' None) = None" by code_simp
  have e3: "layer_match ?L3 (request_of GET ''/api/test'' None) \<noteq> None" by code_simp
  have e4: "fst (run_layers sample_world development (dispatcher_layers sample_world productRoutes)
          (request_of GET ''/api/test'' None)) = [api_test]"
    using d [of "request_of GET ''/api/test'' None"] e1 e2 e3 by blast
  have f1: "layer_match ?L1 (request_of GET ''/logo.png'' None) = None" by code_simp
  have f2: "layer_match ?L2 (request_of GET ''/logo.png'' None) = None" by code_simp
  have f3: "layer_match ?L3 (request_of GET ''/logo.png'' None) = None" by code_simp
  have f4: "fst (run_layers sample_world development (dispatcher_layers sample_world productRoutes)
          (request_of GET ''/logo.png'' None)) = [express_static (distPath sample_world)]"
    using d [of "request_of GET ''/logo.png'' None"] f1 f2 f3 by blast
  from a1 a2 b1 b2 b3 b4 c1 c2 c3 c5 e2 e4 f4 show ?thesis by blast
qed

section \<open>The order of start-up\<close>

lemma take_before:
  "x \<notin> set (take n xs) \<Longrightarrow> take n xs = take n (takeWhile (\<lambda>e. e \<noteq> x) xs)"
proof (induction xs arbitrary: n)
  case Nil
  show ?case by simp
next
  case (Cons a xs)
  show ?case
  proof (cases n)
    case 0
    then show ?thesis by simp
  next
    case (Suc m)
    with Cons.prems have "a \<noteq> x" and "x \<notin> set (take m xs)" by auto
    with Cons.IH [of m] Suc show ?thesis by simp
  qed
qed

text \<open>The state after some events: the layers are those registered, the port is the last one opened.\<close>

lemma foldl_stack:
  "set (stack (foldl apply_event s evs)) = set (stack s) \<union> {l. Register l \<in> set evs}"
proof (induction evs arbitrary: s)
  case Nil
  show ?case by simp
next
  case (Cons e evs)
  show ?case by (cases e) (auto simp: Cons.IH)
qed

lemma foldl_listening:
  "listening s = None \<Longrightarrow> \<forall>p. Listen p \<notin> set evs \<Longrightarrow>
     listening (foldl apply_event s evs) = None"
proof (induction evs arbitrary: s)
  case Nil
  then show ?case by simp
next
  case (Cons e evs)
  then show ?case by (cases e) auto
qed

lemma quiet_state:
  assumes "\<forall>p. Listen p \<notin> set evs" and "\<forall>l. Register l \<in> set evs \<longrightarrow> stage_of l \<noteq> catch_all"
  shows "listening (replay evs) = None \<and> catch_all \<notin> stage_of ` set (stack (replay evs))"
proof -
  have "listening (replay evs) = None"
    unfolding replay_def using assms(1) by (intro foldl_listening) (simp_all add: initial_app_def)
  moreover have "set (stack (replay evs)) = {l. Register l \<in> set evs}"
    unfolding replay_def by (simp add: foldl_stack initial_app_def)
  ultimately show ?thesis using assms(2) by auto
qed

text \<open>Up to the end of the statement nothing opens the listener or registers the fallback.\<close>

lemma before_settled_quiet:
  assumes "e \<in> set (takeWhile (\<lambda>e. e \<noteq> SqlSettled) (bootstrap W E imported out))"
  shows "(\<forall>p. e \<noteq> Listen p) \<and> (\<forall>l. e = Register l \<longrightarrow> stage_of l \<noteq> catch_all)"
  using assms
  by (cases imported; cases out)
     (auto simp: bootstrap_def initDB_then_def initDB_def admission_layers_def)

lemma before_issued:
  "SqlSettled \<notin> set (takeWhile (\<lambda>e. e \<noteq> SqlCreateTable) (bootstrap W E imported out))"
  by (cases imported; cases out)
     (auto simp: bootstrap_def initDB_then_def initDB_def admission_layers_def)

text \<open>
  C8. At every point of the start-up, as long as the table-create statement has not
  finished, the application does not listen and has no fallback stage among its layers;
  and the statement does not finish before it is issued. A start-up whose statement
  succeeds is the module's registrations, the statement issued and finished, then (in
  production) the registration of the fallback stage, then the call that opens the port
  and the log line of its callback.
\<close>

theorem bootstrap_order:
  "(SqlSettled \<notin> set (take n (bootstrap W E imported out)) \<longrightarrow>
      listening (replay (take n (bootstrap W E imported out))) = None \<and>
      catch_all \<notin> stage_of ` set (stack (replay (take n (bootstrap W E imported out))))) \<and>
   (SqlCreateTable \<notin> set (take n (bootstrap W E imported out)) \<longrightarrow>
      SqlSettled \<notin> set (take n (bootstrap W E imported out))) \<and>
   bootstrap W E (Some r) SqlOk =
     takeWhile (\<lambda>e. e \<noteq> SqlCreateTable) (bootstrap W E (Some r) SqlOk) @
     [SqlCreateTable, SqlSettled, Log ''Database initialized successfully''] @
     (if NODE_ENV E = Some ''production'' then
        [Log ''Setting up catch-all route (production only)...'',
         Register (AppUse ''/'' catch_all),
         Log ''Catch-all route set up successfully'']
      else []) @
     [Listen (PORT_value E),
      Log (''Server is running on port '' @ port_text (PORT_value E))]"
proof (intro conjI impI)
  show "bootstrap W E (Some r) SqlOk =
     takeWhile (\<lambda>e. e \<noteq> SqlCreateTable) (bootstrap W E (Some r) SqlOk) @
     [SqlCreateTable, SqlSettled, Log ''Database initialized successfully''] @
     (if NODE_ENV E = Some ''production'' then
        [Log ''Setting up catch-all route (production only)...'',
         Register (AppUse ''/'' catch_all),
         Log ''Catch-all route set up successfully'']
      else []) @
     [Listen (PORT_value E),
      Log (''Server is running on port '' @ port_text (PORT_value E))]"
    by (simp add: bootstrap_def initDB_then_def initDB_def then_callback_def
          admission_layers_def)
next
  let ?evs = "bootstrap W E imported out"
  let ?pre = "takeWhile (\<lambda>e. e \<noteq> SqlSettled) ?evs"
  assume "SqlSettled \<notin> set (take n ?evs)"
  then have t: "take n ?evs = take n ?pre" by (rule take_before)
  have q: "(\<forall>p. e \<noteq> Listen p) \<and> (\<forall>l. e = Register l \<longrightarrow> stage_of l \<noteq> catch_all)"
    if "e \<in> set (take n ?pre)" for e
  proof -
    from that have "e \<in> set ?pre" by (rule in_set_takeD)
    then show ?thesis by (rule before_settled_quiet)
  qed
  have "listening (replay (take n ?pre)) = None \<and>
        catch_all \<notin> stage_of ` set (stack (replay (take n ?pre)))"
    by (rule quiet_state) (use q in blast)+
  with t show "listening (replay (take n ?evs)) = None"
    and "catch_all \<notin> stage_of ` set (stack (replay (take n ?evs)))"
    by simp_all
next
  let ?evs = "bootstrap W E imported out"
  assume "SqlCreateTable \<notin> set (take n ?evs)"
  then have "take n ?evs = take n (takeWhile (\<lambda>e. e \<noteq> SqlCreateTable) ?evs)"
    by (rule take_before)
  moreover have "SqlSettled \<notin> set (take n (takeWhile (\<lambda>e. e \<noteq> SqlCreateTable) ?evs))"
    using before_issued [of W E imported out] in_set_takeD by fastforce
  ultimately show "SqlSettled \<notin> set (take n ?evs)" by simp
qed

theorem bootstrap_order_witness:
  "SqlSettled \<notin> set (take 17 (bootstrap sample_world production (Some productRoutes) SqlOk)) \<and>
   SqlCreateTable \<in> set (take 17 (bootstrap sample_world production (Some productRoutes) SqlOk)) \<and>
   listening (replay (take 17 (bootstrap sample_world production (Some productRoutes) SqlOk)))
     = None \<and>
   catch_all \<notin> stage_of ` set (stack (replay
      (take 17 (bootstrap sample_world production (Some productRoutes) SqlOk)))) \<and>
   SqlCreateTable \<notin> set (take 16 (bootstrap sample_world production (Some productRoutes) SqlOk)) \<and>
   SqlSettled \<notin> set (take 16 (bootstrap sample_world production (Some productRoutes) SqlOk)) \<and>
   listening (replay (bootstrap sample_world production (Some productRoutes) SqlOk))
     = Some (PortNumber 3005) \<and>
   AppUse ''/'' catch_all \<in> set (stack (replay
      (bootstrap sample_world production (Some productRoutes) SqlOk)))"
proof -
  let ?evs = "bootstrap sample_world production (Some productRoutes) SqlOk"
  have 1: "SqlSettled \<notin> set (take 17 ?evs)" by code_simp
  have 2: "SqlCreateTable \<in> set (take 17 ?evs)" by code_simp
  have 3: "SqlCreateTable \<notin> set (take 16 ?evs)" by code_simp
  have 4: "listening (replay ?evs) = Some (PortNumber 3005)" by code_simp
  have 5: "AppUse ''/'' catch_all \<in> set (stack (replay ?evs))" by code_simp
  from bootstrap_order [of 17 sample_world production "Some productRoutes" SqlOk] 1
  have 6: "listening (replay (take 17 ?evs)) = None \<and>
      catch_all \<notin> stage_of ` set (stack (replay (take 17 ?evs)))"
    by blast
  from bootstrap_order [of 16 sample_world production "Some productRoutes" SqlOk] 3
  have 7: "SqlSettled \<notin> set (take 16 ?evs)"
    by blast
  from 1 2 3 4 5 6 7 show ?thesis by blast
qed

section \<open>A storage failure at start-up\<close>

text \<open>
  C9. When the table-create statement fails, \<open>initDB\<close> logs the error and its promise
  resolves, so the callback runs: the events of the start-up are those of a successful
  one with the log line exchanged, the application ends in the same state, it listens on
  the configured port, and it has the fallback stage exactly in production.
\<close>

theorem initDB_failure_still_listens:
  "initDB SqlError = [SqlCreateTable, SqlSettled, Log ''Error initDB''] \<and>
   initDB_then E SqlError = initDB SqlError @ then_callback E \<and>
   bootstrap W E imported SqlError =
     map (\<lambda>e. if e = Log ''Database initialized successfully'' then Log ''Error initDB'' else e)
       (bootstrap W E imported SqlOk) \<and>
   replay (bootstrap W E imported SqlError) = replay (bootstrap W E imported SqlOk) \<and>
   last (butlast (bootstrap W E (Some r) SqlError)) = Listen (PORT_value E) \<and>
   last (bootstrap W E (Some r) SqlError) =
     Log (''Server is running on port '' @ port_text (PORT_value E)) \<and>
   listening (replay (bootstrap W E (Some r) SqlError)) = Some (PORT_value E) \<and>
   (catch_all \<in> stage_of ` set (stack (replay (bootstrap W E (Some r) SqlError))))
     = (NODE_ENV E = Some ''production'')"
proof (intro conjI)
  show "initDB SqlError = [SqlCreateTable, SqlSettled, Log ''Error initDB'']"
    by (simp add: initDB_def)
  show "initDB_then E SqlError = initDB SqlError @ then_callback E"
    by (simp add: initDB_then_def)
  show "bootstrap W E imported SqlError =
     map (\<lambda>e. if e = Log ''Database initialized successfully'' then Log ''Error initDB'' else e)
       (bootstrap W E imported SqlOk)"
    by (cases imported)
       (simp_all add: bootstrap_def initDB_then_def initDB_def then_callback_def
          admission_layers_def)
  show "replay (bootstrap W E imported SqlError) = replay (bootstrap W E imported SqlOk)"
    by (cases imported)
       (simp_all add: replay_def bootstrap_def initDB_then_def initDB_def then_callback_def
          admission_layers_def)
  show "last (butlast (bootstrap W E (Some r) SqlError)) = Listen (PORT_value E)"
    by (simp add: bootstrap_def initDB_then_def initDB_def then_callback_def butlast_append)
  show "last (bootstrap W E (Some r) SqlError) =
     Log (''Server is running on port '' @ port_text (PORT_value E))"
    by (simp add: bootstrap_def initDB_then_def initDB_def then_callback_def)
  show "listening (replay (bootstrap W E (Some r) SqlError)) = Some (PORT_value E)"
    by (simp add: replay_def bootstrap_def initDB_then_def initDB_def then_callback_def
          admission_layers_def)
  show "(catch_all \<in> stage_of ` set (stack (replay (bootstrap W E (Some r) SqlError))))
     = (NODE_ENV E = Some ''production'')"
    by (simp add: replay_def bootstrap_def initDB_then_def initDB_def then_callback_def
          admission_layers_def initial_app_def)
qed

theorem initDB_failure_still_listens_witness:
  "replay (bootstrap sample_world production (Some productRoutes) SqlError) =
     \<lparr>stack = admission_layers @ dispatcher_layers sample_world productRoutes @
               [AppUse ''/'' catch_all],
      listening = Some (PortNumber 3005)\<rparr> \<and>
   replay (bootstrap sample_world production (Some productRoutes) SqlError) =
     replay (bootstrap sample_world production (Some productRoutes) SqlOk) \<and>
   listening (replay (bootstrap sample_world development (Some productRoutes) SqlError))
     = Some (PortString ''8080'')"
proof -
  have 1: "replay (bootstrap sample_world production (Some productRoutes) SqlError) =
     \<lparr>stack = admission_layers @ dispatcher_layers sample_world productRoutes @
               [AppUse ''/'' catch_all],
      listening = Some (PortNumber 3005)\<rparr>"
    by code_simp
  have 2: "PORT_value development = PortString ''8080''"
    by code_simp
  from initDB_failure_still_listens [of production sample_world "Some productRoutes" productRoutes]
  have 3: "replay (bootstrap sample_world production (Some productRoutes) SqlError) =
     replay (bootstrap sample_world production (Some productRoutes) SqlOk)"
    by blast
  from initDB_failure_still_listens [of development sample_world "Some productRoutes" productRoutes]
  have "listening (replay (bootstrap sample_world development (Some productRoutes) SqlError))
     = Some (PORT_value development)"
    by blast
  with 2 have 4: "listening (replay (bootstrap sample_world development (Some productRoutes) SqlError))
     = Some (PortString ''8080'')"
    by simp
  from 1 3 4 show ?thesis by blast
qed

end
